theory Spec2Isabelle
  imports Main "HOL-Library.AList"
begin

section \<open>The mailbox store of the temporary e-mail server\<close>

text \<open>
  This theory embeds the class \<open>EmailManager\<close> of the server: the in-memory
  store of addresses and messages, its retention sweep and its snapshot file.
  Mutation of \<open>this\<close> is explicit state passing. A JavaScript \<open>Map\<close> keeps its
  keys in insertion order, so \<open>this.emails\<close> is an association list: \<open>Map.set\<close> is
  \<open>AList.update\<close> (replace in place, or append a new key), \<open>Map.get\<close> is
  \<open>map_of\<close>, \<open>Map.delete\<close> is \<open>AList.delete\<close> and \<open>Map.size\<close> is the length.
  Everything the code asks of its environment during one call (the clock, the
  random generator, whether the write of the file succeeds) is a field of \<open>env\<close>.
\<close>

subsection \<open>Data model\<close>

text \<open>
  A stored message (\<open>savedEmail\<close>). The fields \<open>id\<close>, \<open>from\<close>, \<open>to\<close>,
  \<open>text\<close> and \<open>html\<close> of the source are \<open>emailId\<close>, \<open>from_addr\<close>, \<open>to_addr\<close>,
  \<open>text_body\<close> and \<open>html_body\<close> here. \<open>date\<close> is the instant in milliseconds
  since the epoch that the ISO string of the source denotes.
\<close>

record message =
  emailId :: string
  from_addr :: string
  to_addr :: string
  subject :: string
  text_body :: string
  html_body :: string
  headers :: "(string \<times> string) list"
  date :: int
  read :: bool
  attachments :: nat

text \<open>
  The parsed message handed to \<open>receiveEmail\<close>. A field of the source that may be
  \<open>undefined\<close> is an option.
\<close>

record emailData =
  data_from :: string
  data_subject :: "string option"
  data_text :: "string option"
  data_html :: "string option"
  data_headers :: "(string \<times> string) list option"
  data_attachments :: "nat option"

text \<open>
  A value that the source reads with \<open>new Date(v).getTime()\<close>: a \<open>Date\<close> object
  (what \<open>new Date()\<close> gives) or its ISO string (what \<open>JSON.stringify\<close> makes of
  a \<open>Date\<close>, and so what a loaded file holds). Both carry the instant in
  milliseconds since the epoch, which \<open>toISOString\<close> and the parsing of an ISO
  string keep.
\<close>

datatype timeval = DateObj int | IsoString int

text \<open>
  One entry of \<open>this.emails\<close>; \<open>stats.received\<close> and \<open>stats.read\<close> of the source
  are the fields \<open>received\<close> and \<open>readCount\<close>.
\<close>

record mailbox =
  address :: string
  created :: timeval
  messages :: "message list"
  received :: nat
  readCount :: nat

record store_stats =
  totalEmails :: nat
  totalAddresses :: nat
  startTime :: timeval

record history_entry =
  hist_email :: string
  hist_domain :: string
  hist_timestamp :: int
  hist_type :: string

text \<open>
  The content of the file \<open>emails.json\<close>. The object \<open>emails\<close> of the file is the
  list of its properties in property order. \<open>emails\<close> or \<open>stats\<close> may be absent
  from a file that parses.
\<close>

record snapshot =
  snap_emails :: "(string \<times> mailbox) list option"
  snap_stats :: "store_stats option"
  savedAt :: int

text \<open>
  The manager. \<open>storage\<close> is the file at \<open>config.EMAIL_STORAGE\<close> (\<open>None\<close> when
  it is missing or cannot be parsed). \<open>saveCalls\<close> is not a field of the source:
  it counts the calls of \<open>saveToFile\<close>, so that a call is observable also when
  the function returns at once.
\<close>

record manager =
  emails :: "(string \<times> mailbox) list"
  domains :: "string list"
  publicIP :: "string option"
  localIPs :: "string list"
  domainHistory :: "history_entry list"
  stats :: store_stats
  storage :: "snapshot option"
  saveCalls :: nat

record config =
  EMAIL_EXPIRY_HOURS :: int
  MAX_EMAILS_PER_ADDRESS :: int
  SAVE_EMAILS :: bool

text \<open>
  What the environment answers during one call: each reading of the clock
  (\<open>new Date()\<close>, \<open>Date.now()\<close>), each \<open>Math.floor(Math.random() * n)\<close>, the
  string \<open>Math.random().toString(36).substr(2, 9)\<close>, whether
  \<open>fs.writeFileSync\<close> succeeds and, when it fails, whether it had already
  truncated the file.
\<close>

record env =
  now_created :: int
  now_id :: int
  now_date :: int
  now_saved :: int
  now_sweep :: int
  now_history :: int
  now_stats :: int
  rand_id :: string
  rand_num :: nat
  rand_adj :: nat
  rand_noun :: nat
  rand_domain :: nat
  write_ok :: bool
  write_truncated :: bool

subsection \<open>JavaScript primitives\<close>

text \<open>\<open>Number.prototype.toString\<close> on an integer.\<close>

fun natToString :: "nat \<Rightarrow> string" where
  "natToString n =
     (if n < 10 then [''0123456789'' ! n]
      else natToString (n div 10) @ [''0123456789'' ! (n mod 10)])"

declare natToString.simps [simp del]

definition intToString :: "int \<Rightarrow> string" where
  "intToString i = (if i < 0 then CHR ''-'' # natToString (nat (- i)) else natToString (nat i))"

text \<open>\<open>new Date(v).getTime()\<close>\<close>

fun getTime :: "timeval \<Rightarrow> int" where
  "getTime (DateObj t) = t"
| "getTime (IsoString t) = t"

text \<open>
  \<open>Date.now() - v\<close>: a \<open>Date\<close> converts to its instant, an ISO string converts to
  \<open>NaN\<close>, which is \<open>None\<close> here.
\<close>

fun elapsedSince :: "int \<Rightarrow> timeval \<Rightarrow> int option" where
  "elapsedSince now (DateObj t) = Some (now - t)"
| "elapsedSince now (IsoString t) = None"

text \<open>What \<open>JSON.stringify\<close> followed by \<open>JSON.parse\<close> makes of such a value.\<close>

fun jsonTime :: "timeval \<Rightarrow> timeval" where
  "jsonTime (DateObj t) = IsoString t"
| "jsonTime (IsoString t) = IsoString t"

text \<open>\<open>x || d\<close> on a string that may be undefined: the empty string is falsy.\<close>

definition orString :: "string option \<Rightarrow> string \<Rightarrow> string" where
  "orString x d = (case x of None \<Rightarrow> d | Some s \<Rightarrow> if s = [] then d else s)"

text \<open>
  \<open>xs.slice(0, e)\<close>: a negative end counts from the end of the array.
\<close>

definition slice0 :: "'a list \<Rightarrow> int \<Rightarrow> 'a list" where
  "slice0 xs e = (if e < 0 then take (nat (int (length xs) + e)) xs else take (nat e) xs)"

text \<open>
  \<open>Object.fromEntries\<close> followed by \<open>Object.entries\<close>: the properties of an
  object are enumerated with the array indices first, in ascending numeric
  order, and then the other keys in insertion order. An array index is the
  canonical decimal string of an integer below \<open>2^32 - 1\<close>.
\<close>

definition isDigit :: "char \<Rightarrow> bool" where
  "isDigit c = (48 \<le> (of_char c :: nat) \<and> (of_char c :: nat) \<le> 57)"

definition parseDigits :: "string \<Rightarrow> int" where
  "parseDigits s = foldl (\<lambda>acc c. 10 * acc + ((of_char c :: int) - 48)) 0 s"

definition isArrayIndex :: "string \<Rightarrow> bool" where
  "isArrayIndex s =
     (s \<noteq> [] \<and> list_all isDigit s \<and> (s = ''0'' \<or> hd s \<noteq> CHR ''0'')
      \<and> parseDigits s < 4294967295)"

definition objectEntries :: "(string \<times> 'a) list \<Rightarrow> (string \<times> 'a) list" where
  "objectEntries kvs =
     sort_key (\<lambda>kv. parseDigits (fst kv)) (filter (\<lambda>kv. isArrayIndex (fst kv)) kvs)
     @ filter (\<lambda>kv. \<not> isArrayIndex (fst kv)) kvs"

subsection \<open>Snapshot persistence\<close>

text \<open>
  What the file holds of a mailbox and of the counters once it is parsed again:
  strings, numbers, booleans and arrays come back as they were, a \<open>Date\<close> comes
  back as its ISO string, and the object made by \<open>Object.fromEntries\<close> lists its
  properties in property order. The file is kept as these parsed data, not as
  text.
\<close>

definition jsonMailbox :: "mailbox \<Rightarrow> mailbox" where
  "jsonMailbox b = b\<lparr>created := jsonTime (created b)\<rparr>"

definition jsonStats :: "store_stats \<Rightarrow> store_stats" where
  "jsonStats s = s\<lparr>startTime := jsonTime (startTime s)\<rparr>"

definition jsonEntries :: "(string \<times> mailbox) list \<Rightarrow> (string \<times> mailbox) list" where
  "jsonEntries ems = map (\<lambda>(k, b). (k, jsonMailbox b)) (objectEntries ems)"

text \<open>
  \<open>saveToFile\<close> returns at once when \<open>config.SAVE_EMAILS\<close> is off. Otherwise it writes
  the store, the counters and the time of saving. An exception inside its \<open>try\<close>
  block is caught and logged; \<open>fs.writeFileSync\<close> writes in place, so a write
  that fails leaves the file as it was or, when it had opened the file, cut
  short, and a file cut short does not parse.
\<close>

definition saveToFile :: "config \<Rightarrow> env \<Rightarrow> manager \<Rightarrow> manager" where
  "saveToFile cfg e st =
     (let st1 = st\<lparr>saveCalls := saveCalls st + 1\<rparr> in
      if \<not> SAVE_EMAILS cfg then st1
      else if write_ok e then
        st1\<lparr>storage := Some \<lparr>snap_emails = Some (jsonEntries (emails st)),
                               snap_stats = Some (jsonStats (stats st)),
                               savedAt = now_saved e\<rparr>\<rparr>
      else if write_truncated e then st1\<lparr>storage := None\<rparr>
      else st1)"

text \<open>
  \<open>loadFromFile\<close>: reading a file that is missing or does not parse raises inside
  the \<open>try\<close> block, is caught and logged, and leaves the manager as it is.
\<close>

definition loadFromFile :: "manager \<Rightarrow> manager" where
  "loadFromFile st =
     (case storage st of
        None \<Rightarrow> st
      | Some data \<Rightarrow>
          st\<lparr>emails := (case snap_emails data of None \<Rightarrow> [] | Some ems \<Rightarrow> ems),
             stats := (case snap_stats data of None \<Rightarrow> stats st | Some s \<Rightarrow> s)\<rparr>)"


subsection \<open>Receiving and listing\<close>

definition newMailbox :: "string \<Rightarrow> int \<Rightarrow> mailbox" where
  "newMailbox a t = \<lparr>address = a, created = DateObj t, messages = [], received = 0, readCount = 0\<rparr>"

definition savedEmail :: "env \<Rightarrow> string \<Rightarrow> emailData \<Rightarrow> message" where
  "savedEmail e toAddress d =
     \<lparr>emailId = intToString (now_id e) @ rand_id e,
      from_addr = data_from d,
      to_addr = toAddress,
      subject = orString (data_subject d) ''No Subject'',
      text_body = orString (data_text d) [],
      html_body = orString (data_html d) [],
      headers = (case data_headers d of None \<Rightarrow> [] | Some h \<Rightarrow> h),
      date = now_date e,
      read = False,
      attachments = (case data_attachments d of None \<Rightarrow> 0 | Some n \<Rightarrow> n)\<rparr>"

record receipt =
  rcpt_id :: string
  rcpt_address :: string
  rcpt_email :: message
  rcpt_totalMessages :: nat

definition receiveEmail ::
  "config \<Rightarrow> env \<Rightarrow> manager \<Rightarrow> string \<Rightarrow> emailData \<Rightarrow> manager \<times> receipt" where
  "receiveEmail cfg e st toAddress d =
     (let st1 = (case map_of (emails st) toAddress of
                   Some _ \<Rightarrow> st
                 | None \<Rightarrow>
                     st\<lparr>emails := AList.update toAddress (newMailbox toAddress (now_created e)) (emails st),
                        stats := (stats st)\<lparr>totalAddresses := totalAddresses (stats st) + 1\<rparr>\<rparr>);
          emailEntry = (case map_of (emails st1) toAddress of
                          Some b \<Rightarrow> b
                        | None \<Rightarrow> newMailbox toAddress (now_created e));
          msg = savedEmail e toAddress d;
          unshifted = msg # messages emailEntry;
          limited = (if int (length unshifted) > MAX_EMAILS_PER_ADDRESS cfg
                     then slice0 unshifted (MAX_EMAILS_PER_ADDRESS cfg) else unshifted);
          entry' = emailEntry\<lparr>messages := limited, received := received emailEntry + 1\<rparr>;
          st2 = st1\<lparr>emails := AList.update toAddress entry' (emails st1),
                    stats := (stats st1)\<lparr>totalEmails := totalEmails (stats st1) + 1\<rparr>\<rparr>;
          st3 = saveToFile cfg e st2
      in (st3, \<lparr>rcpt_id = emailId msg, rcpt_address = toAddress, rcpt_email = msg,
                rcpt_totalMessages = length limited\<rparr>))"

definition getEmailsForAddress :: "manager \<Rightarrow> string \<Rightarrow> message list" where
  "getEmailsForAddress st a = (case map_of (emails st) a of None \<Rightarrow> [] | Some b \<Rightarrow> messages b)"

subsection \<open>Marking and deleting\<close>

text \<open>
  \<open>messages.find(msg => msg.id === emailId)\<close> yields the first message with
  that id, and \<open>email.read = true\<close> writes to that message inside the list.
\<close>

fun setRead :: "string \<Rightarrow> message list \<Rightarrow> message list" where
  "setRead i [] = []"
| "setRead i (m # ms) = (if emailId m = i then m\<lparr>read := True\<rparr> # ms else m # setRead i ms)"

definition markAsRead :: "config \<Rightarrow> env \<Rightarrow> manager \<Rightarrow> string \<Rightarrow> string \<Rightarrow> manager \<times> bool" where
  "markAsRead cfg e st emailAddress i =
     (case map_of (emails st) emailAddress of
        None \<Rightarrow> (st, False)
      | Some emailEntry \<Rightarrow>
          (case find (\<lambda>msg. emailId msg = i) (messages emailEntry) of
             None \<Rightarrow> (st, False)
           | Some email \<Rightarrow>
               if \<not> read email then
                 (saveToFile cfg e
                    (st\<lparr>emails := AList.update emailAddress
                          (emailEntry\<lparr>messages := setRead i (messages emailEntry),
                                      readCount := readCount emailEntry + 1\<rparr>)
                          (emails st)\<rparr>),
                  True)
               else (st, False)))"

definition deleteEmail :: "config \<Rightarrow> env \<Rightarrow> manager \<Rightarrow> string \<Rightarrow> string \<Rightarrow> manager \<times> bool" where
  "deleteEmail cfg e st emailAddress i =
     (case map_of (emails st) emailAddress of
        None \<Rightarrow> (st, False)
      | Some emailEntry \<Rightarrow>
          (let initialLength = length (messages emailEntry);
               kept = filter (\<lambda>msg. emailId msg \<noteq> i) (messages emailEntry);
               st1 = st\<lparr>emails := AList.update emailAddress (emailEntry\<lparr>messages := kept\<rparr>) (emails st)\<rparr>
           in if length kept < initialLength then (saveToFile cfg e st1, True) else (st1, False)))"

definition deleteAllEmails :: "config \<Rightarrow> env \<Rightarrow> manager \<Rightarrow> string \<Rightarrow> manager \<times> bool" where
  "deleteAllEmails cfg e st emailAddress =
     (case map_of (emails st) emailAddress of
        Some emailEntry \<Rightarrow>
          (saveToFile cfg e
             (st\<lparr>emails := AList.update emailAddress (emailEntry\<lparr>messages := []\<rparr>) (emails st)\<rparr>),
           True)
      | None \<Rightarrow> (st, False))"

record stats_view =
  view_totalEmails :: nat
  view_totalAddresses :: nat
  view_startTime :: timeval
  view_uptime :: "int option"
  view_activeAddresses :: nat
  view_domains :: "string list"
  view_publicIP :: "string option"
  view_localIPs :: "string list"

definition getStats :: "env \<Rightarrow> manager \<Rightarrow> stats_view" where
  "getStats e st =
     \<lparr>view_totalEmails = totalEmails (stats st),
      view_totalAddresses = totalAddresses (stats st),
      view_startTime = startTime (stats st),
      view_uptime = elapsedSince (now_stats e) (startTime (stats st)),
      view_activeAddresses = length (emails st),
      view_domains = domains st,
      view_publicIP = publicIP st,
      view_localIPs = localIPs st\<rparr>"

subsection \<open>The retention sweep\<close>

definition expiryTime :: "config \<Rightarrow> int" where
  "expiryTime cfg = EMAIL_EXPIRY_HOURS cfg * 60 * 60 * 1000"

text \<open>
  One pass of the body of the \<open>for\<close> loop over \<open>this.emails.entries()\<close>: \<open>data\<close> is
  the mailbox object stored under \<open>address\<close>, so the assignment to
  \<open>data.messages\<close> is an update of the map at that key.
\<close>

definition sweepMessages :: "int \<Rightarrow> int \<Rightarrow> message list \<Rightarrow> message list" where
  "sweepMessages now expiry ms = filter (\<lambda>msg. now - date msg < expiry) ms"

definition sweepEntry ::
  "int \<Rightarrow> int \<Rightarrow> (string \<times> mailbox) list \<times> nat \<Rightarrow> string \<times> mailbox
     \<Rightarrow> (string \<times> mailbox) list \<times> nat" where
  "sweepEntry now expiry acc entry =
     (let address = fst entry; data = snd entry;
          initialCount = length (messages data);
          kept = sweepMessages now expiry (messages data);
          ems1 = AList.update address (data\<lparr>messages := kept\<rparr>) (fst acc);
          deletedCount = snd acc + (initialCount - length kept);
          ems2 = (if kept = [] \<and> now - getTime (created data) > expiry
                  then AList.delete address ems1 else ems1)
      in (ems2, deletedCount))"

definition sweepLoop :: "int \<Rightarrow> int \<Rightarrow> (string \<times> mailbox) list \<Rightarrow> (string \<times> mailbox) list \<times> nat" where
  "sweepLoop now expiry ems = foldl (sweepEntry now expiry) (ems, 0) ems"

definition cleanupOldEmails :: "config \<Rightarrow> env \<Rightarrow> manager \<Rightarrow> manager" where
  "cleanupOldEmails cfg e st =
     (let swept = sweepLoop (now_sweep e) (expiryTime cfg) (emails st);
          st1 = st\<lparr>emails := fst swept\<rparr>
      in if snd swept > 0 then saveToFile cfg e st1 else st1)"

subsection \<open>Allocating an address\<close>

text \<open>
  \<open>String.prototype.toLowerCase\<close> on ASCII text, which is all the source applies
  it to: the letters \<open>A\<close> to \<open>Z\<close> move by 32, every other character stays.
\<close>

definition toLowerChar :: "char \<Rightarrow> char" where
  "toLowerChar c =
     (if 65 \<le> (of_char c :: nat) \<and> (of_char c :: nat) \<le> 90
      then char_of ((of_char c :: nat) + 32) else c)"

definition toLowerCase :: "string \<Rightarrow> string" where
  "toLowerCase s = map toLowerChar s"

text \<open>The character class \<open>[a-z0-9_.-]\<close>.\<close>

definition usernameChar :: "char \<Rightarrow> bool" where
  "usernameChar c =
     ((97 \<le> (of_char c :: nat) \<and> (of_char c :: nat) \<le> 122)
      \<or> (48 \<le> (of_char c :: nat) \<and> (of_char c :: nat) \<le> 57)
      \<or> c = CHR ''_'' \<or> c = CHR ''.'' \<or> c = CHR ''-'')"

text \<open>\<open>/^[a-z0-9_.-]{3,20}$/.test(username)\<close>\<close>

definition isValidUsername :: "string \<Rightarrow> bool" where
  "isValidUsername username =
     (3 \<le> length username \<and> length username \<le> 20 \<and> list_all usernameChar username)"

definition adjectives :: "string list" where
  "adjectives = [''quick'', ''clever'', ''happy'', ''brave'', ''calm'', ''eager'', ''gentle'',
                 ''jolly'', ''smart'', ''wise'']"

definition nouns :: "string list" where
  "nouns = [''fox'', ''bear'', ''wolf'', ''eagle'', ''lion'', ''tiger'', ''panda'', ''hawk'',
            ''owl'', ''deer'']"

text \<open>
  \<open>xs[i]\<close> inside a template literal: an index out of range reads \<open>undefined\<close>,
  which the template prints as the word. \<open>Math.floor(Math.random() * n)\<close> is below
  \<open>n\<close>, so the source reads inside the range whenever the array is not empty.
\<close>

definition templateIndex :: "string list \<Rightarrow> nat \<Rightarrow> string" where
  "templateIndex xs i = (if i < length xs then xs ! i else ''undefined'')"

definition generateRandomUsername :: "env \<Rightarrow> string" where
  "generateRandomUsername e =
     toLowerCase (templateIndex adjectives (rand_adj e) @ ''_''
                  @ templateIndex nouns (rand_noun e) @ ''_''
                  @ natToString (rand_num e))"

record options =
  opt_username :: "string option"
  opt_domain :: "string option"
  opt_type :: "string option"

definition chooseUsername :: "env \<Rightarrow> options \<Rightarrow> string" where
  "chooseUsername e opts =
     (case opt_username opts of
        Some customUsername \<Rightarrow>
          if customUsername \<noteq> [] \<and> isValidUsername customUsername then customUsername
          else generateRandomUsername e
      | None \<Rightarrow> generateRandomUsername e)"

definition chooseDomain :: "env \<Rightarrow> manager \<Rightarrow> options \<Rightarrow> string" where
  "chooseDomain e st opts =
     (let type = (case opt_type opts of None \<Rightarrow> ''public'' | Some t \<Rightarrow> t);
          preferred = (case opt_domain opts of None \<Rightarrow> [] | Some p \<Rightarrow> p);
          public = (case publicIP st of None \<Rightarrow> [] | Some p \<Rightarrow> p)
      in if preferred \<noteq> [] \<and> preferred \<in> set (domains st) then preferred
         else if type = ''public'' \<and> public \<noteq> [] then public
         else if type = ''local'' then
           (case filter (\<lambda>d. Some d \<noteq> publicIP st \<and> d \<noteq> ''localhost'') (domains st) of
              [] \<Rightarrow> ''localhost''
            | d # _ \<Rightarrow> d)
         else templateIndex (domains st) (rand_domain e))"

text \<open>
  The fields \<open>smtpServer\<close>, \<open>webInterface\<close> and \<open>instructions\<close> of the result are
  texts for the user built from the domain and the ports; they are left out.
\<close>

record address_info =
  info_email :: string
  info_domain :: string
  info_isPublic :: bool
  info_isLocal :: bool

definition generateEmailAddress :: "env \<Rightarrow> manager \<Rightarrow> options \<Rightarrow> manager \<times> address_info" where
  "generateEmailAddress e st opts =
     (let username = chooseUsername e opts;
          domain = chooseDomain e st opts;
          email = username @ ''@'' @ domain;
          st1 = (case map_of (emails st) email of
                   Some _ \<Rightarrow> st
                 | None \<Rightarrow>
                     st\<lparr>emails := AList.update email (newMailbox email (now_created e)) (emails st),
                        stats := (stats st)\<lparr>totalAddresses := totalAddresses (stats st) + 1\<rparr>\<rparr>);
          st2 = st1\<lparr>domainHistory := domainHistory st1 @
                   [\<lparr>hist_email = email, hist_domain = domain, hist_timestamp = now_history e,
                     hist_type = (if domain = ''localhost''
                                     \<or> (domain \<in> set (localIPs st) \<and> Some domain \<noteq> publicIP st)
                                  then ''local'' else ''public'')\<rparr>]\<rparr>
      in (st2, \<lparr>info_email = email, info_domain = domain,
                info_isPublic = (Some domain = publicIP st),
                info_isLocal = (domain = ''localhost'' \<or> domain \<in> set (localIPs st))\<rparr>))"

text \<open>The manager as its constructor leaves it.\<close>

definition newManager :: "int \<Rightarrow> snapshot option \<Rightarrow> manager" where
  "newManager t file =
     \<lparr>emails = [], domains = [''localhost''], publicIP = None, localIPs = [],
      domainHistory = [], stats = \<lparr>totalEmails = 0, totalAddresses = 0, startTime = DateObj t\<rparr>,
      storage = file, saveCalls = 0\<rparr>"

subsection \<open>Notions used in the statements\<close>

text \<open>A sequence of deposits to one address, each with its own environment.\<close>

fun receiveAll :: "config \<Rightarrow> manager \<Rightarrow> string \<Rightarrow> (env \<times> emailData) list \<Rightarrow> manager" where
  "receiveAll cfg st a [] = st"
| "receiveAll cfg st a (x # xs) = receiveAll cfg (fst (receiveEmail cfg (fst x) st a (snd x))) a xs"

text \<open>The stored forms of a sequence of deposits, in the order of deposit.\<close>

definition storedAll :: "string \<Rightarrow> (env \<times> emailData) list \<Rightarrow> message list" where
  "storedAll a ds = map (\<lambda>x. savedEmail (fst x) a (snd x)) ds"

text \<open>
  A message is expired at a sweep when the filter of the sweep does not keep it.
\<close>

definition expiredAt :: "int \<Rightarrow> int \<Rightarrow> message \<Rightarrow> bool" where
  "expiredAt now expiry msg = (\<not> now - date msg < expiry)"

definition anyExpired :: "int \<Rightarrow> int \<Rightarrow> (string \<times> mailbox) list \<Rightarrow> bool" where
  "anyExpired now expiry ems = list_ex (\<lambda>kv. list_ex (expiredAt now expiry) (messages (snd kv))) ems"

text \<open>A string without upper-case letters: \<open>toLowerCase\<close> leaves it as it is.\<close>

definition lowerString :: "string \<Rightarrow> bool" where
  "lowerString s = list_all (\<lambda>c. \<not> (65 \<le> (of_char c :: nat) \<and> (of_char c :: nat) \<le> 90)) s"

subsection \<open>Inputs for the examples\<close>

text \<open>
  The configuration as the source sets it when no variable of the environment
  is given, the same with a cap of two messages, and the same with persistence
  switched on.
\<close>

definition cfg_default :: config where
  "cfg_default = \<lparr>EMAIL_EXPIRY_HOURS = 24, MAX_EMAILS_PER_ADDRESS = 100, SAVE_EMAILS = False\<rparr>"

definition cfg_cap2 :: config where
  "cfg_cap2 = \<lparr>EMAIL_EXPIRY_HOURS = 24, MAX_EMAILS_PER_ADDRESS = 2, SAVE_EMAILS = False\<rparr>"

definition cfg_persist :: config where
  "cfg_persist = \<lparr>EMAIL_EXPIRY_HOURS = 24, MAX_EMAILS_PER_ADDRESS = 100, SAVE_EMAILS = True\<rparr>"

text \<open>
  An environment whose clock reads \<open>t\<close> throughout the call and whose random
  string is \<open>r\<close>; the write of the file succeeds.
\<close>

definition env_at :: "int \<Rightarrow> string \<Rightarrow> env" where
  "env_at t r = \<lparr>now_created = t, now_id = t, now_date = t, now_saved = t, now_sweep = t,
     now_history = t, now_stats = t, rand_id = r, rand_num = 7, rand_adj = 1, rand_noun = 2,
     rand_domain = 0, write_ok = True, write_truncated = False\<rparr>"

definition data_hello :: emailData where
  "data_hello = \<lparr>data_from = ''alice@example.org'', data_subject = None, data_text = Some ''hello'',
     data_html = None, data_headers = None, data_attachments = None\<rparr>"

text \<open>A message with every optional field given, and one with an empty subject.\<close>

definition data_full :: emailData where
  "data_full = \<lparr>data_from = ''carol@example.org'', data_subject = Some ''Invoice'',
     data_text = Some ''see attachment'', data_html = Some ''<p>see attachment</p>'',
     data_headers = Some [(''subject'', ''Invoice''), (''x-mailer'', ''test'')],
     data_attachments = Some 2\<rparr>"

definition data_blank :: emailData where
  "data_blank = \<lparr>data_from = ''dave@example.org'', data_subject = Some [],
     data_text = None, data_html = None, data_headers = None, data_attachments = None\<rparr>"

definition opts_custom :: "string \<Rightarrow> options" where
  "opts_custom u = \<lparr>opt_username = Some u, opt_domain = None, opt_type = None\<rparr>"

text \<open>A store holding one unread message for \<open>bob@localhost\<close>.\<close>

definition st_one :: manager where
  "st_one = fst (receiveEmail cfg_default (env_at 5 ''k3x'') (newManager 0 None) ''bob@localhost'' data_hello)"

text \<open>
  A store with one mailbox that holds no message, created at time 3, and one
  whose only mailbox was created at time 0.
\<close>

definition st_empty_box :: manager where
  "st_empty_box = (newManager 0 None)\<lparr>emails := [(''bob@localhost'', newMailbox ''bob@localhost'' 3)]\<rparr>"

definition st_stale_box :: manager where
  "st_stale_box = (newManager 0 None)\<lparr>emails := [(''bob@localhost'', newMailbox ''bob@localhost'' 0)]\<rparr>"

text \<open>A store that received one message at 3600000, one hour after the epoch.\<close>

definition st_hour_one :: manager where
  "st_hour_one =
     fst (receiveEmail cfg_persist (env_at 3600000 ''k3x'') (newManager 0 None) ''bob@localhost'' data_hello)"

section \<open>Properties\<close>

subsection \<open>Deposit and list\<close>

lemma emails_saveToFile: "emails (saveToFile cfg e st) = emails st"
  by (simp add: saveToFile_def Let_def)


lemma slice0_cap: "0 \<le> c \<Longrightarrow> (if int (length xs) > c then slice0 xs c else xs) = take (nat c) xs"
  by (auto simp: slice0_def)

lemma receiveEmail_messages:
  "0 \<le> MAX_EMAILS_PER_ADDRESS cfg \<Longrightarrow>
   getEmailsForAddress (fst (receiveEmail cfg e st a d)) a =
     take (nat (MAX_EMAILS_PER_ADDRESS cfg)) (savedEmail e a d # getEmailsForAddress st a)"
  by (cases "map_of (emails st) a")
     (simp_all add: receiveEmail_def getEmailsForAddress_def Let_def emails_saveToFile
        slice0_cap update_conv' newMailbox_def)

lemma receiveEmail_receipt:
  "rcpt_id (snd (receiveEmail cfg e st a d)) = emailId (savedEmail e a d) \<and>
   rcpt_email (snd (receiveEmail cfg e st a d)) = savedEmail e a d \<and>
   rcpt_address (snd (receiveEmail cfg e st a d)) = a"
  by (simp add: receiveEmail_def Let_def)

lemma receiveEmail_total:
  "0 \<le> MAX_EMAILS_PER_ADDRESS cfg \<Longrightarrow>
   rcpt_totalMessages (snd (receiveEmail cfg e st a d)) =
     length (getEmailsForAddress (fst (receiveEmail cfg e st a d)) a)"
  by (cases "map_of (emails st) a")
     (simp_all add: receiveEmail_def getEmailsForAddress_def Let_def emails_saveToFile
        slice0_cap update_conv' newMailbox_def)

lemma st_one_emails:
  "emails st_one = [(''bob@localhost'',
      \<lparr>address = ''bob@localhost'', created = DateObj 5,
       messages = [\<lparr>emailId = ''5k3x'', from_addr = ''alice@example.org'', to_addr = ''bob@localhost'',
         subject = ''No Subject'', text_body = ''hello'', html_body = [], headers = [],
         date = 5, read = False, attachments = 0\<rparr>],
       received = 1, readCount = 0\<rparr>)]"
  by (simp add: st_one_def receiveEmail_def Let_def emails_saveToFile cfg_default_def env_at_def
      newManager_def data_hello_def savedEmail_def newMailbox_def orString_def intToString_def
      natToString.simps)

text \<open>
  Claim C1. With a positive cap, right after \<open>receiveEmail\<close> to an address the list
  of that address starts with the stored form of the message: its id is the
  time followed by the random string, sender, text, html, headers and number of
  attachments are those of the message handed in (an absent or empty subject
  reads \<open>No Subject\<close>, an absent text or html is empty, absent headers are none,
  absent attachments are 0), the recipient is the address, the date is the time
  of receipt and \<open>read\<close> is false. The earlier messages follow, cut to the cap.
  The receipt carries that id, the address, that stored message and the new
  length of the list.
\<close>

theorem receiveEmail_listed_first:
  assumes "0 < MAX_EMAILS_PER_ADDRESS cfg"
  shows "getEmailsForAddress (fst (receiveEmail cfg e st a d)) a =
           \<lparr>emailId = intToString (now_id e) @ rand_id e,
            from_addr = data_from d,
            to_addr = a,
            subject = (case data_subject d of
                         None \<Rightarrow> ''No Subject''
                       | Some s \<Rightarrow> if s = [] then ''No Subject'' else s),
            text_body = (case data_text d of None \<Rightarrow> [] | Some s \<Rightarrow> s),
            html_body = (case data_html d of None \<Rightarrow> [] | Some s \<Rightarrow> s),
            headers = (case data_headers d of None \<Rightarrow> [] | Some h \<Rightarrow> h),
            date = now_date e,
            read = False,
            attachments = (case data_attachments d of None \<Rightarrow> 0 | Some n \<Rightarrow> n)\<rparr>
           # take (nat (MAX_EMAILS_PER_ADDRESS cfg) - 1) (getEmailsForAddress st a)
         \<and> rcpt_id (snd (receiveEmail cfg e st a d)) = intToString (now_id e) @ rand_id e
         \<and> rcpt_address (snd (receiveEmail cfg e st a d)) = a
         \<and> [rcpt_email (snd (receiveEmail cfg e st a d))] =
             take 1 (getEmailsForAddress (fst (receiveEmail cfg e st a d)) a)
         \<and> rcpt_totalMessages (snd (receiveEmail cfg e st a d)) =
             length (getEmailsForAddress (fst (receiveEmail cfg e st a d)) a)"
proof -
  from assms obtain k where k: "nat (MAX_EMAILS_PER_ADDRESS cfg) = Suc k"
    by (cases "nat (MAX_EMAILS_PER_ADDRESS cfg)") auto
  from assms have nonneg: "0 \<le> MAX_EMAILS_PER_ADDRESS cfg" by simp
  have stored: "savedEmail e a d =
           \<lparr>emailId = intToString (now_id e) @ rand_id e,
            from_addr = data_from d,
            to_addr = a,
            subject = (case data_subject d of
                         None \<Rightarrow> ''No Subject''
                       | Some s \<Rightarrow> if s = [] then ''No Subject'' else s),
            text_body = (case data_text d of None \<Rightarrow> [] | Some s \<Rightarrow> s),
            html_body = (case data_html d of None \<Rightarrow> [] | Some s \<Rightarrow> s),
            headers = (case data_headers d of None \<Rightarrow> [] | Some h \<Rightarrow> h),
            date = now_date e,
            read = False,
            attachments = (case data_attachments d of None \<Rightarrow> 0 | Some n \<Rightarrow> n)\<rparr>"
    by (simp add: savedEmail_def orString_def split: option.splits)
  have listed: "getEmailsForAddress (fst (receiveEmail cfg e st a d)) a =
          savedEmail e a d # take (nat (MAX_EMAILS_PER_ADDRESS cfg) - 1) (getEmailsForAddress st a)"
    using receiveEmail_messages [OF nonneg, of e st a d] k by simp
  have first: "[rcpt_email (snd (receiveEmail cfg e st a d))] =
             take 1 (getEmailsForAddress (fst (receiveEmail cfg e st a d)) a)"
    using receiveEmail_receipt [of cfg e st a d] by (simp add: listed)
  have ident: "rcpt_id (snd (receiveEmail cfg e st a d)) = intToString (now_id e) @ rand_id e"
    using receiveEmail_receipt [of cfg e st a d] by (simp add: savedEmail_def)
  from listed first ident show ?thesis
    using receiveEmail_receipt [of cfg e st a d] receiveEmail_total [OF nonneg, of e st a d]
    by (simp add: stored)
qed

theorem receiveEmail_listed_first_witness:
  "0 < MAX_EMAILS_PER_ADDRESS cfg_default
   \<and> getEmailsForAddress
       (fst (receiveEmail cfg_default (env_at 6 ''zz9'') st_one ''bob@localhost'' data_full))
       ''bob@localhost''
     = [\<lparr>emailId = ''6zz9'', from_addr = ''carol@example.org'', to_addr = ''bob@localhost'',
         subject = ''Invoice'', text_body = ''see attachment'', html_body = ''<p>see attachment</p>'',
         headers = [(''subject'', ''Invoice''), (''x-mailer'', ''test'')],
         date = 6, read = False, attachments = 2\<rparr>,
        \<lparr>emailId = ''5k3x'', from_addr = ''alice@example.org'', to_addr = ''bob@localhost'',
         subject = ''No Subject'', text_body = ''hello'', html_body = [], headers = [],
         date = 5, read = False, attachments = 0\<rparr>]
   \<and> rcpt_id (snd (receiveEmail cfg_default (env_at 6 ''zz9'') st_one ''bob@localhost'' data_full))
     = ''6zz9''
   \<and> rcpt_totalMessages (snd (receiveEmail cfg_default (env_at 6 ''zz9'') st_one ''bob@localhost'' data_full))
     = 2
   \<and> getEmailsForAddress
       (fst (receiveEmail cfg_default (env_at 7 ''q'') (newManager 0 None) ''Bob@localhost'' data_blank))
       ''Bob@localhost''
     = [\<lparr>emailId = ''7q'', from_addr = ''dave@example.org'', to_addr = ''Bob@localhost'',
         subject = ''No Subject'', text_body = [], html_body = [], headers = [],
         date = 7, read = False, attachments = 0\<rparr>]"
proof -
  have cap: "0 < MAX_EMAILS_PER_ADDRESS cfg_default"
    by (simp add: cfg_default_def)
  have old: "getEmailsForAddress st_one ''bob@localhost'' =
      [\<lparr>emailId = ''5k3x'', from_addr = ''alice@example.org'', to_addr = ''bob@localhost'',
         subject = ''No Subject'', text_body = ''hello'', html_body = [], headers = [],
         date = 5, read = False, attachments = 0\<rparr>]"
    by (simp add: getEmailsForAddress_def st_one_emails)
  have none: "getEmailsForAddress (newManager 0 None) ''Bob@localhost'' = []"
    by (simp add: getEmailsForAddress_def newManager_def)
  have ids: "intToString 6 = ''6''" "intToString 7 = ''7''"
    by (simp_all add: intToString_def natToString.simps)
  from cap
    receiveEmail_listed_first [OF cap, of "env_at 6 ''zz9''" st_one "''bob@localhost''" data_full]
    receiveEmail_listed_first [OF cap, of "env_at 7 ''q''" "newManager 0 None" "''Bob@localhost''" data_blank]
  show ?thesis
    by (simp add: old none ids env_at_def data_full_def data_blank_def cfg_default_def)
qed

lemma receiveAll_snoc:
  "receiveAll cfg st a (ds @ [x]) = fst (receiveEmail cfg (fst x) (receiveAll cfg st a ds) a (snd x))"
  by (induction ds arbitrary: st) simp_all

lemma take_Cons_take: "take n (x # take n ys) = take n (x # ys)"
  by (cases n) simp_all

lemma receiveAll_messages:
  assumes cap: "0 \<le> MAX_EMAILS_PER_ADDRESS cfg" and ne: "ds \<noteq> []"
  shows "getEmailsForAddress (receiveAll cfg st a ds) a =
           take (nat (MAX_EMAILS_PER_ADDRESS cfg)) (rev (storedAll a ds) @ getEmailsForAddress st a)"
  using ne
proof (induction ds rule: rev_induct)
  case Nil
  then show ?case by simp
next
  case (snoc x ds)
  show ?case
  proof (cases "ds = []")
    case True
    then show ?thesis
      using receiveEmail_messages [OF cap, of "fst x" st a "snd x"]
      by (simp add: storedAll_def)
  next
    case False
    with snoc.IH have IH: "getEmailsForAddress (receiveAll cfg st a ds) a =
        take (nat (MAX_EMAILS_PER_ADDRESS cfg)) (rev (storedAll a ds) @ getEmailsForAddress st a)"
      by simp
    have "getEmailsForAddress (receiveAll cfg st a (ds @ [x])) a =
        take (nat (MAX_EMAILS_PER_ADDRESS cfg))
          (savedEmail (fst x) a (snd x) # getEmailsForAddress (receiveAll cfg st a ds) a)"
      using receiveEmail_messages [OF cap, of "fst x" "receiveAll cfg st a ds" a "snd x"]
      by (simp only: receiveAll_snoc)
    also have "\<dots> = take (nat (MAX_EMAILS_PER_ADDRESS cfg))
          (savedEmail (fst x) a (snd x) # rev (storedAll a ds) @ getEmailsForAddress st a)"
      by (simp only: IH take_Cons_take)
    also have "\<dots> = take (nat (MAX_EMAILS_PER_ADDRESS cfg))
          (rev (storedAll a (ds @ [x])) @ getEmailsForAddress st a)"
      by (simp add: storedAll_def)
    finally show ?thesis .
  qed
qed

text \<open>
  Claim C2. After every non-empty sequence of deposits to one address the list
  of that address is no longer than the cap, and it is the newest-first list of
  the deposited messages followed by the earlier ones, cut at the cap: what is
  dropped is the oldest. Once the sequence is at least as long as the cap, the
  list is exactly the last \<open>cap\<close> deposits, newest first.
\<close>

theorem deposits_capped_newest_kept:
  assumes "0 \<le> MAX_EMAILS_PER_ADDRESS cfg" and "ds \<noteq> []"
  shows "length (getEmailsForAddress (receiveAll cfg st a ds) a) \<le> nat (MAX_EMAILS_PER_ADDRESS cfg)
         \<and> getEmailsForAddress (receiveAll cfg st a ds) a =
             take (nat (MAX_EMAILS_PER_ADDRESS cfg)) (rev (storedAll a ds) @ getEmailsForAddress st a)
         \<and> (nat (MAX_EMAILS_PER_ADDRESS cfg) \<le> length ds \<longrightarrow>
              getEmailsForAddress (receiveAll cfg st a ds) a =
                rev (drop (length ds - nat (MAX_EMAILS_PER_ADDRESS cfg)) (storedAll a ds)))"
proof -
  have eq: "getEmailsForAddress (receiveAll cfg st a ds) a =
      take (nat (MAX_EMAILS_PER_ADDRESS cfg)) (rev (storedAll a ds) @ getEmailsForAddress st a)"
    using assms by (rule receiveAll_messages)
  have len: "length (getEmailsForAddress (receiveAll cfg st a ds) a) \<le> nat (MAX_EMAILS_PER_ADDRESS cfg)"
    by (simp add: eq)
  have full: "getEmailsForAddress (receiveAll cfg st a ds) a =
      rev (drop (length ds - nat (MAX_EMAILS_PER_ADDRESS cfg)) (storedAll a ds))"
    if "nat (MAX_EMAILS_PER_ADDRESS cfg) \<le> length ds"
  proof -
    have "length (storedAll a ds) = length ds" by (simp add: storedAll_def)
    with that show ?thesis
      by (simp add: eq take_rev)
  qed
  from eq len full show ?thesis by blast
qed

theorem deposits_capped_newest_kept_witness:
  "0 \<le> MAX_EMAILS_PER_ADDRESS cfg_cap2
   \<and> [(env_at 1 ''a'', data_hello), (env_at 2 ''b'', data_hello), (env_at 3 ''c'', data_hello)] \<noteq> []
   \<and> map emailId (getEmailsForAddress
        (receiveAll cfg_cap2 (newManager 0 None) ''bob@localhost''
           [(env_at 1 ''a'', data_hello), (env_at 2 ''b'', data_hello), (env_at 3 ''c'', data_hello)])
        ''bob@localhost'') = [''3c'', ''2b'']"
  using deposits_capped_newest_kept [of cfg_cap2
     "[(env_at 1 ''a'', data_hello), (env_at 2 ''b'', data_hello), (env_at 3 ''c'', data_hello)]"
     "newManager 0 None" "''bob@localhost''"]
  by (simp add: cfg_cap2_def env_at_def newManager_def storedAll_def savedEmail_def
      getEmailsForAddress_def intToString_def natToString.simps)

subsection \<open>Marking as read\<close>

lemma find_setRead_split:
  "find (\<lambda>msg. emailId msg = i) xs = Some m \<Longrightarrow>
   \<exists>pre post. xs = pre @ m # post \<and> list_all (\<lambda>x. emailId x \<noteq> i) pre \<and> emailId m = i
     \<and> setRead i xs = pre @ m\<lparr>read := True\<rparr> # post"
proof (induction xs)
  case Nil
  then show ?case by simp
next
  case (Cons x xs)
  show ?case
  proof (cases "emailId x = i")
    case True
    with Cons.prems have "x = m" by simp
    with True have "x # xs = [] @ m # xs \<and> list_all (\<lambda>x. emailId x \<noteq> i) [] \<and> emailId m = i
        \<and> setRead i (x # xs) = [] @ m\<lparr>read := True\<rparr> # xs"
      by simp
    then show ?thesis by blast
  next
    case False
    with Cons.prems have "find (\<lambda>msg. emailId msg = i) xs = Some m" by simp
    from Cons.IH [OF this] obtain pre post where
      "xs = pre @ m # post" "list_all (\<lambda>x. emailId x \<noteq> i) pre" "emailId m = i"
      "setRead i xs = pre @ m\<lparr>read := True\<rparr> # post"
      by blast
    with False have "x # xs = (x # pre) @ m # post \<and> list_all (\<lambda>x. emailId x \<noteq> i) (x # pre)
        \<and> emailId m = i \<and> setRead i (x # xs) = (x # pre) @ m\<lparr>read := True\<rparr> # post"
      by simp
    then show ?thesis by blast
  qed
qed

lemma find_after_setRead:
  "find (\<lambda>msg. emailId msg = i) xs = Some m \<Longrightarrow>
   find (\<lambda>msg. emailId msg = i) (setRead i xs) = Some (m\<lparr>read := True\<rparr>)"
  by (induction xs) (auto split: if_splits)

lemma markAsRead_result:
  "snd (markAsRead cfg e st a i) \<longleftrightarrow>
     (\<exists>m. find (\<lambda>msg. emailId msg = i) (getEmailsForAddress st a) = Some m \<and> \<not> read m)"
  by (simp add: markAsRead_def getEmailsForAddress_def split: option.splits)

lemma markAsRead_false: "\<not> snd (markAsRead cfg e st a i) \<Longrightarrow> fst (markAsRead cfg e st a i) = st"
  by (simp add: markAsRead_def split: option.splits if_splits)

lemma markAsRead_true:
  assumes "snd (markAsRead cfg e st a i)"
  shows "\<exists>b m. map_of (emails st) a = Some b
           \<and> find (\<lambda>msg. emailId msg = i) (messages b) = Some m \<and> \<not> read m
           \<and> map_of (emails (fst (markAsRead cfg e st a i))) a =
               Some (b\<lparr>messages := setRead i (messages b), readCount := readCount b + 1\<rparr>)"
  using assms
  by (auto simp: markAsRead_def emails_saveToFile update_conv' split: option.splits if_splits)

text \<open>
  Claim C3. \<open>markAsRead\<close> returns true exactly when the list of the address
  holds a message with that id (the first one, which is what \<open>find\<close> returns) and
  that message is unread. Then the message, alone, has its \<open>read\<close> flag set,
  \<open>readCount\<close> of the mailbox grows by one, and a second call with the same id, in
  whatever environment, returns false and leaves the whole store as it is. A
  call that returns false changes nothing.
\<close>

theorem markAsRead_once:
  "(snd (markAsRead cfg e st a i) \<longleftrightarrow>
      (\<exists>m. find (\<lambda>msg. emailId msg = i) (getEmailsForAddress st a) = Some m \<and> \<not> read m))
   \<and> (snd (markAsRead cfg e st a i) \<longrightarrow>
        (\<exists>b pre m post.
           map_of (emails st) a = Some b
           \<and> messages b = pre @ m # post
           \<and> list_all (\<lambda>x. emailId x \<noteq> i) pre \<and> emailId m = i \<and> \<not> read m
           \<and> map_of (emails (fst (markAsRead cfg e st a i))) a =
               Some (b\<lparr>messages := pre @ m\<lparr>read := True\<rparr> # post, readCount := readCount b + 1\<rparr>))
        \<and> markAsRead cfg e' (fst (markAsRead cfg e st a i)) a i =
             (fst (markAsRead cfg e st a i), False))
   \<and> (\<not> snd (markAsRead cfg e st a i) \<longrightarrow> fst (markAsRead cfg e st a i) = st)"
proof (intro conjI impI)
  show "snd (markAsRead cfg e st a i) \<longleftrightarrow>
      (\<exists>m. find (\<lambda>msg. emailId msg = i) (getEmailsForAddress st a) = Some m \<and> \<not> read m)"
    by (rule markAsRead_result)
next
  assume t: "snd (markAsRead cfg e st a i)"
  from markAsRead_true [OF t] obtain b m where
    b: "map_of (emails st) a = Some b"
    and m: "find (\<lambda>msg. emailId msg = i) (messages b) = Some m" "\<not> read m"
    and after: "map_of (emails (fst (markAsRead cfg e st a i))) a =
               Some (b\<lparr>messages := setRead i (messages b), readCount := readCount b + 1\<rparr>)"
    by blast
  from find_setRead_split [OF m(1)] obtain pre post where
    split: "messages b = pre @ m # post" "list_all (\<lambda>x. emailId x \<noteq> i) pre" "emailId m = i"
      "setRead i (messages b) = pre @ m\<lparr>read := True\<rparr> # post"
    by blast
  from b m split after
  show "\<exists>b pre m post.
           map_of (emails st) a = Some b
           \<and> messages b = pre @ m # post
           \<and> list_all (\<lambda>x. emailId x \<noteq> i) pre \<and> emailId m = i \<and> \<not> read m
           \<and> map_of (emails (fst (markAsRead cfg e st a i))) a =
               Some (b\<lparr>messages := pre @ m\<lparr>read := True\<rparr> # post, readCount := readCount b + 1\<rparr>)"
    by auto
  have "find (\<lambda>msg. emailId msg = i)
          (messages (b\<lparr>messages := setRead i (messages b), readCount := readCount b + 1\<rparr>)) =
        Some (m\<lparr>read := True\<rparr>)"
    using find_after_setRead [OF m(1)] by simp
  with after show "markAsRead cfg e' (fst (markAsRead cfg e st a i)) a i =
             (fst (markAsRead cfg e st a i), False)"
    by (simp add: markAsRead_def [of cfg e' "fst (markAsRead cfg e st a i)"])
next
  assume "\<not> snd (markAsRead cfg e st a i)"
  then show "fst (markAsRead cfg e st a i) = st"
    by (rule markAsRead_false)
qed

theorem markAsRead_once_witness:
  "snd (markAsRead cfg_default (env_at 6 []) st_one ''bob@localhost'' ''5k3x'')
   \<and> map read (getEmailsForAddress (fst (markAsRead cfg_default (env_at 6 []) st_one ''bob@localhost'' ''5k3x''))
        ''bob@localhost'') = [True]
   \<and> \<not> snd (markAsRead cfg_default (env_at 7 [])
              (fst (markAsRead cfg_default (env_at 6 []) st_one ''bob@localhost'' ''5k3x''))
              ''bob@localhost'' ''5k3x'')
   \<and> \<not> snd (markAsRead cfg_default (env_at 6 []) st_one ''bob@localhost'' ''nosuchid'')
   \<and> fst (markAsRead cfg_default (env_at 6 []) st_one ''bob@localhost'' ''nosuchid'') = st_one"
  using markAsRead_once [of cfg_default "env_at 6 []" st_one "''bob@localhost''" "''5k3x''" "env_at 7 []"]
    markAsRead_once [of cfg_default "env_at 6 []" st_one "''bob@localhost''" "''nosuchid''" "env_at 7 []"]
  by (simp add: markAsRead_def getEmailsForAddress_def st_one_emails emails_saveToFile)

subsection \<open>Deleting all messages of an address\<close>

lemma deleteAllEmails_result:
  "snd (deleteAllEmails cfg e st a) \<longleftrightarrow> map_of (emails st) a \<noteq> None"
  by (simp add: deleteAllEmails_def split: option.splits)

lemma deleteAllEmails_entry:
  "map_of (emails st) a = Some b \<Longrightarrow>
   map_of (emails (fst (deleteAllEmails cfg e st a))) a = Some (b\<lparr>messages := []\<rparr>)"
  by (simp add: deleteAllEmails_def emails_saveToFile update_conv')

lemma deleteAllEmails_keys:
  "map fst (emails (fst (deleteAllEmails cfg e st a))) = map fst (emails st)"
proof (cases "map_of (emails st) a")
  case None
  then show ?thesis by (simp add: deleteAllEmails_def)
next
  case (Some b)
  then have "a \<in> fst ` set (emails st)"
    by (force dest: map_of_SomeD)
  with Some show ?thesis
    by (simp add: deleteAllEmails_def emails_saveToFile update_keys)
qed

lemma deleteAllEmails_others:
  "a' \<noteq> a \<Longrightarrow> map_of (emails (fst (deleteAllEmails cfg e st a))) a' = map_of (emails st) a'"
  by (simp add: deleteAllEmails_def emails_saveToFile update_conv' split: option.splits)

text \<open>
  Claim C7. \<open>deleteAllEmails\<close> returns true exactly when the address is a key of
  the store, also when its mailbox holds no message; whenever it returns true
  the list of the address is empty afterwards.
\<close>

theorem deleteAllEmails_true_iff_known:
  "(snd (deleteAllEmails cfg e st a) \<longleftrightarrow> map_of (emails st) a \<noteq> None)
   \<and> (case map_of (emails st) a of
        Some b \<Rightarrow> messages b = [] \<longrightarrow> snd (deleteAllEmails cfg e st a)
      | None \<Rightarrow> \<not> snd (deleteAllEmails cfg e st a))
   \<and> (snd (deleteAllEmails cfg e st a) \<longrightarrow>
        getEmailsForAddress (fst (deleteAllEmails cfg e st a)) a = []
        \<and> (\<exists>b. map_of (emails (fst (deleteAllEmails cfg e st a))) a = Some b \<and> messages b = []))"
proof (cases "map_of (emails st) a")
  case None
  then show ?thesis by (simp add: deleteAllEmails_def)
next
  case (Some b)
  with deleteAllEmails_entry [OF Some, of cfg e] show ?thesis
    by (simp add: deleteAllEmails_result getEmailsForAddress_def)
qed

theorem deleteAllEmails_true_iff_known_witness:
  "snd (deleteAllEmails cfg_default (env_at 9 []) st_empty_box ''bob@localhost'')
   \<and> getEmailsForAddress (fst (deleteAllEmails cfg_default (env_at 9 []) st_empty_box ''bob@localhost''))
        ''bob@localhost'' = []
   \<and> \<not> snd (deleteAllEmails cfg_default (env_at 9 []) st_empty_box ''eve@localhost'')
   \<and> snd (deleteAllEmails cfg_default (env_at 9 []) st_one ''bob@localhost'')
   \<and> getEmailsForAddress (fst (deleteAllEmails cfg_default (env_at 9 []) st_one ''bob@localhost''))
        ''bob@localhost'' = []"
  using deleteAllEmails_true_iff_known [of cfg_default "env_at 9 []" st_empty_box "''bob@localhost''"]
    deleteAllEmails_true_iff_known [of cfg_default "env_at 9 []" st_empty_box "''eve@localhost''"]
    deleteAllEmails_true_iff_known [of cfg_default "env_at 9 []" st_one "''bob@localhost''"]
  by (simp add: st_empty_box_def newManager_def newMailbox_def st_one_emails)

text \<open>
  Claim C10. For an address of the store, \<open>deleteAllEmails\<close> replaces the
  mailbox by the same mailbox with an empty list: address, creation time,
  \<open>received\<close> and \<open>readCount\<close> stay. The keys of the store, and so the count of
  active addresses that \<open>getStats\<close> reports, stay; every other mailbox stays. The
  list of the address is empty right after, and a second \<open>deleteAllEmails\<close> on
  the address returns true again.
\<close>

theorem deleteAllEmails_keeps_mailbox:
  assumes "map_of (emails st) a = Some b"
  shows "(\<exists>b'. map_of (emails (fst (deleteAllEmails cfg e st a))) a = Some b'
               \<and> b' = b\<lparr>messages := []\<rparr>
               \<and> address b' = address b \<and> created b' = created b
               \<and> received b' = received b \<and> readCount b' = readCount b)
         \<and> map fst (emails (fst (deleteAllEmails cfg e st a))) = map fst (emails st)
         \<and> view_activeAddresses (getStats e1 (fst (deleteAllEmails cfg e st a))) =
             view_activeAddresses (getStats e1 st)
         \<and> (\<forall>a'. a' \<noteq> a \<longrightarrow>
               map_of (emails (fst (deleteAllEmails cfg e st a))) a' = map_of (emails st) a')
         \<and> getEmailsForAddress (fst (deleteAllEmails cfg e st a)) a = []
         \<and> snd (deleteAllEmails cfg e2 (fst (deleteAllEmails cfg e st a)) a)"
proof -
  have entry: "map_of (emails (fst (deleteAllEmails cfg e st a))) a = Some (b\<lparr>messages := []\<rparr>)"
    using assms by (rule deleteAllEmails_entry)
  have keys: "map fst (emails (fst (deleteAllEmails cfg e st a))) = map fst (emails st)"
    by (rule deleteAllEmails_keys)
  have "length (map fst (emails (fst (deleteAllEmails cfg e st a)))) = length (map fst (emails st))"
    by (simp only: keys)
  then have active: "view_activeAddresses (getStats e1 (fst (deleteAllEmails cfg e st a))) =
             view_activeAddresses (getStats e1 st)"
    by (simp add: getStats_def)
  have again: "snd (deleteAllEmails cfg e2 (fst (deleteAllEmails cfg e st a)) a)"
    by (simp add: deleteAllEmails_result entry)
  have listed: "getEmailsForAddress (fst (deleteAllEmails cfg e st a)) a = []"
    by (simp add: getEmailsForAddress_def entry)
  from entry keys active again listed show ?thesis
    by (simp add: deleteAllEmails_others)
qed

theorem deleteAllEmails_keeps_mailbox_witness:
  "map_of (emails st_one) ''bob@localhost'' \<noteq> None
   \<and> map (\<lambda>kv. (fst kv, created (snd kv), messages (snd kv), received (snd kv), readCount (snd kv)))
       (emails (fst (deleteAllEmails cfg_default (env_at 9 []) st_one ''bob@localhost'')))
     = [(''bob@localhost'', DateObj 5, [], 1, 0)]
   \<and> view_activeAddresses (getStats (env_at 10 [])
        (fst (deleteAllEmails cfg_default (env_at 9 []) st_one ''bob@localhost''))) = 1
   \<and> snd (deleteAllEmails cfg_default (env_at 11 [])
        (fst (deleteAllEmails cfg_default (env_at 9 []) st_one ''bob@localhost'')) ''bob@localhost'')"
proof -
  have h: "map_of (emails st_one) ''bob@localhost'' = Some (snd (hd (emails st_one)))"
    by (simp add: st_one_emails)
  show ?thesis
    using h deleteAllEmails_keeps_mailbox [OF h, of cfg_default "env_at 9 []" "env_at 10 []" "env_at 11 []"]
    by (simp add: st_one_emails deleteAllEmails_def emails_saveToFile getStats_def)
qed

subsection \<open>The retention sweep\<close>

lemma sweep_fold_count:
  "snd (foldl (sweepEntry now x) (ems, n) its) =
     n + sum_list (map (\<lambda>kv. length (filter (expiredAt now x) (messages (snd kv)))) its)"
proof (induction its arbitrary: ems n)
  case Nil
  then show ?case by simp
next
  case (Cons kv its)
  have split: "length (messages (snd kv)) - length (sweepMessages now x (messages (snd kv))) =
      length (filter (expiredAt now x) (messages (snd kv)))"
  proof -
    have "expiredAt now x = (\<lambda>msg. \<not> now - date msg < x)"
      by (simp add: expiredAt_def fun_eq_iff)
    then show ?thesis
      using sum_length_filter_compl [of "\<lambda>msg. now - date msg < x" "messages (snd kv)"]
      by (simp add: sweepMessages_def)
  qed
  obtain ems' where step: "sweepEntry now x (ems, n) kv =
      (ems', n + length (filter (expiredAt now x) (messages (snd kv))))"
    by (simp add: sweepEntry_def Let_def split)
  show ?case
    by (simp add: step Cons.IH)
qed

lemma sweep_fold_map_of:
  "distinct (map fst its) \<Longrightarrow>
   map_of (fst (foldl (sweepEntry now x) (ems, n) its)) a =
     (case map_of its a of
        None \<Rightarrow> map_of ems a
      | Some d \<Rightarrow>
          if sweepMessages now x (messages d) = [] \<and> now - getTime (created d) > x then None
          else Some (d\<lparr>messages := sweepMessages now x (messages d)\<rparr>))"
proof (induction its arbitrary: ems n)
  case Nil
  then show ?case by simp
next
  case (Cons kv its)
  obtain k d where kv: "kv = (k, d)" by (cases kv)
  obtain ems' n' where step: "sweepEntry now x (ems, n) (k, d) = (ems', n')"
    by (cases "sweepEntry now x (ems, n) (k, d)")
  from Cons.prems kv have dist: "distinct (map fst its)" and fresh: "k \<notin> fst ` set its"
    by auto
  have IH: "map_of (fst (foldl (sweepEntry now x) (ems', n') its)) a =
     (case map_of its a of
        None \<Rightarrow> map_of ems' a
      | Some d \<Rightarrow>
          if sweepMessages now x (messages d) = [] \<and> now - getTime (created d) > x then None
          else Some (d\<lparr>messages := sweepMessages now x (messages d)\<rparr>))"
    using Cons.IH [OF dist] .
  have ems': "map_of ems' a =
      (if a = k then
         (if sweepMessages now x (messages d) = [] \<and> now - getTime (created d) > x then None
          else Some (d\<lparr>messages := sweepMessages now x (messages d)\<rparr>))
       else map_of ems a)"
    using step kv
    by (auto simp: sweepEntry_def Let_def update_conv' delete_conv' split: if_splits)
  show ?case
  proof (cases "a = k")
    case True
    from fresh have none: "map_of its k = None"
      by (simp add: map_of_eq_None_iff)
    show ?thesis
      using IH ems' none unfolding True by (simp add: step kv split: option.splits)
  next
    case False
    then show ?thesis
      using IH ems' by (simp add: step kv split: option.splits)
  qed
qed

lemma sweepLoop_count:
  "snd (sweepLoop now x ems) =
     sum_list (map (\<lambda>kv. length (filter (expiredAt now x) (messages (snd kv)))) ems)"
  by (simp add: sweepLoop_def sweep_fold_count)

lemma sweepLoop_count_pos: "0 < snd (sweepLoop now x ems) \<longleftrightarrow> anyExpired now x ems"
proof -
  have "0 < sum_list (map (\<lambda>kv. length (filter (expiredAt now x) (messages (snd kv)))) ems)
        \<longleftrightarrow> anyExpired now x ems"
    by (induction ems) (auto simp: anyExpired_def list_ex_iff filter_empty_conv)
  then show ?thesis by (simp add: sweepLoop_count)
qed

lemma sweepLoop_map_of:
  "distinct (map fst ems) \<Longrightarrow>
   map_of (fst (sweepLoop now x ems)) a =
     (case map_of ems a of
        None \<Rightarrow> None
      | Some d \<Rightarrow>
          if sweepMessages now x (messages d) = [] \<and> now - getTime (created d) > x then None
          else Some (d\<lparr>messages := sweepMessages now x (messages d)\<rparr>))"
  by (simp add: sweepLoop_def sweep_fold_map_of split: option.splits)

lemma emails_cleanupOldEmails:
  "emails (cleanupOldEmails cfg e st) = fst (sweepLoop (now_sweep e) (expiryTime cfg) (emails st))"
  by (simp add: cleanupOldEmails_def Let_def emails_saveToFile)

text \<open>
  What one sweep does to each mailbox of a store with distinct keys: the
  messages kept are those younger than the expiry time, and the mailbox goes
  exactly when none is kept and the mailbox is older than the expiry time.
\<close>

lemma cleanupOldEmails_mailbox:
  assumes "distinct (map fst (emails st))"
  shows "map_of (emails (cleanupOldEmails cfg e st)) a =
     (case map_of (emails st) a of
        None \<Rightarrow> None
      | Some d \<Rightarrow>
          if filter (\<lambda>msg. now_sweep e - date msg < expiryTime cfg) (messages d) = []
             \<and> getTime (created d) < now_sweep e - expiryTime cfg
          then None
          else Some (d\<lparr>messages := filter (\<lambda>msg. now_sweep e - date msg < expiryTime cfg) (messages d)\<rparr>))"
proof -
  have "(expiryTime cfg < now_sweep e - getTime (created d)) =
      (getTime (created d) < now_sweep e - expiryTime cfg)"
    for d :: mailbox
    by auto
  then show ?thesis
    using sweepLoop_map_of [OF assms, of "now_sweep e" "expiryTime cfg" a]
    by (simp add: emails_cleanupOldEmails sweepMessages_def split: option.splits)
qed

text \<open>
  Claim C8, as the code has it. A sweep calls \<open>saveToFile\<close>, once and on the swept
  store, exactly when it removed at least one message; when persistence is on
  and the write succeeds, the file then holds the swept store. A sweep that
  removed no message leaves the call count and the file as they were, whatever
  it did to the mailboxes.
\<close>

theorem cleanupOldEmails_checkpoint:
  "(anyExpired (now_sweep e) (expiryTime cfg) (emails st) \<longrightarrow>
      cleanupOldEmails cfg e st =
        saveToFile cfg e (st\<lparr>emails := fst (sweepLoop (now_sweep e) (expiryTime cfg) (emails st))\<rparr>)
      \<and> saveCalls (cleanupOldEmails cfg e st) = saveCalls st + 1
      \<and> (SAVE_EMAILS cfg \<and> write_ok e \<longrightarrow>
           storage (cleanupOldEmails cfg e st) =
             Some \<lparr>snap_emails = Some (jsonEntries (emails (cleanupOldEmails cfg e st))),
                   snap_stats = Some (jsonStats (stats (cleanupOldEmails cfg e st))),
                   savedAt = now_saved e\<rparr>))
   \<and> (\<not> anyExpired (now_sweep e) (expiryTime cfg) (emails st) \<longrightarrow>
        saveCalls (cleanupOldEmails cfg e st) = saveCalls st
        \<and> storage (cleanupOldEmails cfg e st) = storage st)"
proof (cases "anyExpired (now_sweep e) (expiryTime cfg) (emails st)")
  case True
  then have pos: "0 < snd (sweepLoop (now_sweep e) (expiryTime cfg) (emails st))"
    by (simp add: sweepLoop_count_pos)
  then have eq: "cleanupOldEmails cfg e st =
      saveToFile cfg e (st\<lparr>emails := fst (sweepLoop (now_sweep e) (expiryTime cfg) (emails st))\<rparr>)"
    by (simp add: cleanupOldEmails_def Let_def)
  have "saveCalls (cleanupOldEmails cfg e st) = saveCalls st + 1"
    by (simp add: eq saveToFile_def Let_def)
  moreover have "storage (cleanupOldEmails cfg e st) =
             Some \<lparr>snap_emails = Some (jsonEntries (emails (cleanupOldEmails cfg e st))),
                   snap_stats = Some (jsonStats (stats (cleanupOldEmails cfg e st))),
                   savedAt = now_saved e\<rparr>"
    if "SAVE_EMAILS cfg \<and> write_ok e"
    using that by (simp add: eq saveToFile_def Let_def)
  ultimately show ?thesis
    using True eq by simp
next
  case False
  then have "\<not> 0 < snd (sweepLoop (now_sweep e) (expiryTime cfg) (emails st))"
    by (simp only: sweepLoop_count_pos not_False_eq_True)
  then have "cleanupOldEmails cfg e st =
      st\<lparr>emails := fst (sweepLoop (now_sweep e) (expiryTime cfg) (emails st))\<rparr>"
    by (simp add: cleanupOldEmails_def Let_def)
  with False show ?thesis by simp
qed

lemma st_hour_one_emails:
  "emails st_hour_one = [(''bob@localhost'',
      \<lparr>address = ''bob@localhost'', created = DateObj 3600000,
       messages = [\<lparr>emailId = ''3600000k3x'', from_addr = ''alice@example.org'', to_addr = ''bob@localhost'',
         subject = ''No Subject'', text_body = ''hello'', html_body = [], headers = [],
         date = 3600000, read = False, attachments = 0\<rparr>],
       received = 1, readCount = 0\<rparr>)]"
  by (simp add: st_hour_one_def receiveEmail_def Let_def emails_saveToFile cfg_persist_def env_at_def
      newManager_def data_hello_def savedEmail_def newMailbox_def orString_def intToString_def
      natToString.simps)

lemma st_hour_one_saveCalls: "saveCalls st_hour_one = 1"
  by (simp add: st_hour_one_def receiveEmail_def Let_def saveToFile_def cfg_persist_def env_at_def
      newManager_def split: option.splits)

theorem cleanupOldEmails_checkpoint_witness:
  "anyExpired (now_sweep (env_at 90000001 [])) (expiryTime cfg_persist) (emails st_hour_one)
   \<and> write_ok (env_at 90000001 []) \<and> SAVE_EMAILS cfg_persist
   \<and> saveCalls (cleanupOldEmails cfg_persist (env_at 90000001 []) st_hour_one) = 2
   \<and> emails (cleanupOldEmails cfg_persist (env_at 90000001 []) st_hour_one) = []
   \<and> map_option snap_emails (storage (cleanupOldEmails cfg_persist (env_at 90000001 []) st_hour_one))
       = Some (Some [])
   \<and> \<not> anyExpired (now_sweep (env_at 90000001 [])) (expiryTime cfg_persist) (emails st_stale_box)
   \<and> saveCalls (cleanupOldEmails cfg_persist (env_at 90000001 []) st_stale_box) = 0"
proof -
  have x: "anyExpired (now_sweep (env_at 90000001 [])) (expiryTime cfg_persist) (emails st_hour_one)"
    by (simp add: anyExpired_def expiredAt_def st_hour_one_emails env_at_def expiryTime_def cfg_persist_def)
  have y: "\<not> anyExpired (now_sweep (env_at 90000001 [])) (expiryTime cfg_persist) (emails st_stale_box)"
    by (simp add: anyExpired_def st_stale_box_def newMailbox_def)
  have z: "emails (cleanupOldEmails cfg_persist (env_at 90000001 []) st_hour_one) = []"
    by (simp add: emails_cleanupOldEmails sweepLoop_def sweepEntry_def sweepMessages_def Let_def
        st_hour_one_emails env_at_def expiryTime_def cfg_persist_def)
  have w: "jsonEntries [] = []"
    by (simp add: jsonEntries_def objectEntries_def)
  have ok: "SAVE_EMAILS cfg_persist \<and> write_ok (env_at 90000001 [])"
    by (simp add: cfg_persist_def env_at_def)
  note swept = cleanupOldEmails_checkpoint [of "env_at 90000001 []" cfg_persist st_hour_one]
  note idle = cleanupOldEmails_checkpoint [of "env_at 90000001 []" cfg_persist st_stale_box]
  from swept x have a: "saveCalls (cleanupOldEmails cfg_persist (env_at 90000001 []) st_hour_one) =
      saveCalls st_hour_one + 1"
    by blast
  from swept x ok have b: "storage (cleanupOldEmails cfg_persist (env_at 90000001 []) st_hour_one) =
      Some \<lparr>snap_emails = Some (jsonEntries (emails (cleanupOldEmails cfg_persist (env_at 90000001 []) st_hour_one))),
            snap_stats = Some (jsonStats (stats (cleanupOldEmails cfg_persist (env_at 90000001 []) st_hour_one))),
            savedAt = now_saved (env_at 90000001 [])\<rparr>"
    by blast
  from idle y have c: "saveCalls (cleanupOldEmails cfg_persist (env_at 90000001 []) st_stale_box) =
      saveCalls st_stale_box"
    by blast
  have d: "saveCalls st_stale_box = 0"
    by (simp add: st_stale_box_def newManager_def)
  from x y z ok show ?thesis
    by (simp add: a b c d w st_hour_one_saveCalls)
qed

theorem cleanupOldEmails_mailbox_only_counterexample:
  "emails st_stale_box = [(''bob@localhost'', newMailbox ''bob@localhost'' 0)]
   \<and> emails (cleanupOldEmails cfg_persist (env_at 90000001 []) st_stale_box) = []
   \<and> saveCalls (cleanupOldEmails cfg_persist (env_at 90000001 []) st_stale_box) = saveCalls st_stale_box
   \<and> storage (cleanupOldEmails cfg_persist (env_at 90000001 []) st_stale_box) = None"
  by (simp add: cleanupOldEmails_def sweepLoop_def sweepEntry_def sweepMessages_def Let_def
      st_stale_box_def newManager_def newMailbox_def env_at_def expiryTime_def cfg_persist_def)

text \<open>
  Claim C5, at the boundary. The store received one message at 3600000 and is
  swept at 90000000, exactly one expiry time of 24 hours later. The date of the
  message equals the sweep time minus the expiry time, so the message is not
  older than that; the sweep removes it all the same, since it keeps a message
  only when its age is below the expiry time. The mailbox was created at the
  same instant and stays, since a mailbox goes only when its age is above the
  expiry time.
\<close>

theorem cleanupOldEmails_boundary_message:
  "map date (getEmailsForAddress st_hour_one ''bob@localhost'') =
     [now_sweep (env_at 90000000 []) - expiryTime cfg_persist]
   \<and> getEmailsForAddress (cleanupOldEmails cfg_persist (env_at 90000000 []) st_hour_one)
        ''bob@localhost'' = []
   \<and> map (\<lambda>kv. (fst kv, created (snd kv))) (emails (cleanupOldEmails cfg_persist (env_at 90000000 []) st_hour_one))
       = [(''bob@localhost'', DateObj (now_sweep (env_at 90000000 []) - expiryTime cfg_persist))]"
  by (simp add: getEmailsForAddress_def emails_cleanupOldEmails sweepLoop_def sweepEntry_def
      sweepMessages_def Let_def st_hour_one_emails env_at_def expiryTime_def cfg_persist_def)

subsection \<open>Save and load\<close>








text \<open>
  After a load the start time is an ISO string, so the uptime that \<open>getStats\<close>
  computes from it is \<open>NaN\<close>.
\<close>

lemma uptime_after_load:
  assumes "SAVE_EMAILS cfg" and "write_ok e" and "storage st' = storage (saveToFile cfg e st)"
  shows "view_uptime (getStats e' (loadFromFile st')) = None"
proof -
  from assms have "stats (loadFromFile st') = jsonStats (stats st)"
    by (simp add: saveToFile_def Let_def loadFromFile_def)
  then show ?thesis
    by (cases "startTime (stats st)") (simp_all add: getStats_def jsonStats_def)
qed



subsection \<open>Usernames\<close>

lemma char_in_codes:
  assumes "(of_char c :: nat) \<in> set (map of_char s)"
  shows "c \<in> set s"
  using assms by auto

lemma letter_codes: "map of_char ''abcdefghijklmnopqrstuvwxyz'' = [97..<123::nat]"
  by (simp add: upt_rec)

lemma digit_codes: "map of_char ''0123456789'' = [48..<58::nat]"
  by (simp add: upt_rec)

lemma letter_iff:
  "97 \<le> (of_char c :: nat) \<and> (of_char c :: nat) \<le> 122 \<longleftrightarrow> c \<in> set ''abcdefghijklmnopqrstuvwxyz''"
proof
  assume "97 \<le> (of_char c :: nat) \<and> (of_char c :: nat) \<le> 122"
  then have "(of_char c :: nat) \<in> set [97..<123]" unfolding set_upt by auto
  then have "(of_char c :: nat) \<in> set (map of_char ''abcdefghijklmnopqrstuvwxyz'')"
    by (simp only: letter_codes)
  then show "c \<in> set ''abcdefghijklmnopqrstuvwxyz''" by (rule char_in_codes)
next
  assume "c \<in> set ''abcdefghijklmnopqrstuvwxyz''"
  then have "(of_char c :: nat) \<in> set (map of_char ''abcdefghijklmnopqrstuvwxyz'')"
    by (simp only: set_map image_eqI)
  then have "(of_char c :: nat) \<in> {97..<123}"
    by (simp only: letter_codes set_upt)
  then show "97 \<le> (of_char c :: nat) \<and> (of_char c :: nat) \<le> 122" by auto
qed

lemma digit_iff:
  "48 \<le> (of_char c :: nat) \<and> (of_char c :: nat) \<le> 57 \<longleftrightarrow> c \<in> set ''0123456789''"
proof
  assume "48 \<le> (of_char c :: nat) \<and> (of_char c :: nat) \<le> 57"
  then have "(of_char c :: nat) \<in> set [48..<58]" unfolding set_upt by auto
  then have "(of_char c :: nat) \<in> set (map of_char ''0123456789'')"
    by (simp only: digit_codes)
  then show "c \<in> set ''0123456789''" by (rule char_in_codes)
next
  assume "c \<in> set ''0123456789''"
  then have "(of_char c :: nat) \<in> set (map of_char ''0123456789'')"
    by (simp only: set_map image_eqI)
  then have "(of_char c :: nat) \<in> {48..<58}"
    by (simp only: digit_codes set_upt)
  then show "48 \<le> (of_char c :: nat) \<and> (of_char c :: nat) \<le> 57" by auto
qed

lemma usernameChar_iff:
  "usernameChar c \<longleftrightarrow> c \<in> set (''abcdefghijklmnopqrstuvwxyz'' @ ''0123456789'' @ ''_.-'')"
proof -
  have "c \<in> set ''_.-'' \<longleftrightarrow> c = CHR ''_'' \<or> c = CHR ''.'' \<or> c = CHR ''-''"
    by simp
  then show ?thesis
    by (simp only: usernameChar_def letter_iff digit_iff set_append Un_iff)
qed

lemma toLowerChar_twice: "toLowerChar (toLowerChar c) = toLowerChar c"
  by (simp add: toLowerChar_def)

lemma lowerString_toLowerCase: "lowerString (toLowerCase s)"
  by (induction s) (simp_all add: lowerString_def toLowerCase_def toLowerChar_def)

lemma toLowerCase_lowerString: "lowerString s \<Longrightarrow> toLowerCase s = s"
  by (induction s) (auto simp: lowerString_def toLowerCase_def toLowerChar_def)

lemma lowerString_append: "lowerString (xs @ ys) \<longleftrightarrow> lowerString xs \<and> lowerString ys"
  by (simp add: lowerString_def)

lemma lowerString_digit: "k < 10 \<Longrightarrow> lowerString [''0123456789'' ! k]"
proof -
  assume "k < 10"
  then have "k \<in> {0, 1, 2, 3, 4, 5, 6, 7, 8, 9}" by auto
  then show ?thesis
    by (auto simp: lowerString_def)
qed

lemma lowerString_natToString: "lowerString (natToString n)"
proof (induction n rule: natToString.induct)
  case (1 n)
  show ?case
  proof (cases "n < 10")
    case True
    then show ?thesis
      by (subst natToString.simps) (simp add: lowerString_digit)
  next
    case False
    have "n mod 10 < 10" by simp
    with False 1 show ?thesis
      by (subst natToString.simps) (simp add: lowerString_append lowerString_digit)
  qed
qed

lemma lowerString_adjective: "i < length adjectives \<Longrightarrow> lowerString (adjectives ! i)"
proof -
  assume "i < length adjectives"
  then have "i \<in> {0, 1, 2, 3, 4, 5, 6, 7, 8, 9}" by (auto simp: adjectives_def)
  then show ?thesis
    by (auto simp: lowerString_def adjectives_def)
qed

lemma lowerString_noun: "i < length nouns \<Longrightarrow> lowerString (nouns ! i)"
proof -
  assume "i < length nouns"
  then have "i \<in> {0, 1, 2, 3, 4, 5, 6, 7, 8, 9}" by (auto simp: nouns_def)
  then show ?thesis
    by (auto simp: lowerString_def nouns_def)
qed

lemma usernameChar_lower: "usernameChar c \<Longrightarrow> \<not> (65 \<le> (of_char c :: nat) \<and> (of_char c :: nat) \<le> 90)"
  by (auto simp: usernameChar_def)

lemma lowerString_valid: "isValidUsername u \<Longrightarrow> lowerString u"
  by (auto simp: isValidUsername_def lowerString_def list_all_iff dest: usernameChar_lower)

lemma lowerString_chooseUsername: "lowerString (chooseUsername e opts)"
  by (simp add: chooseUsername_def generateRandomUsername_def lowerString_toLowerCase
      lowerString_valid split: option.splits)

lemma generateRandomUsername_shape:
  assumes "rand_adj e < length adjectives" and "rand_noun e < length nouns"
  shows "generateRandomUsername e =
           adjectives ! rand_adj e @ ''_'' @ nouns ! rand_noun e @ ''_'' @ natToString (rand_num e)"
proof -
  have "lowerString (adjectives ! rand_adj e @ ''_'' @ nouns ! rand_noun e @ ''_'' @ natToString (rand_num e))"
  proof -
    have "lowerString ''_''" by (simp add: lowerString_def)
    with assms show ?thesis
      by (simp only: lowerString_append lowerString_adjective lowerString_noun
          lowerString_natToString simp_thms)
  qed
  then show ?thesis
    using assms by (simp add: generateRandomUsername_def templateIndex_def toLowerCase_lowerString)
qed

lemma isValidUsername_iff:
  "isValidUsername u \<longleftrightarrow>
     3 \<le> length u \<and> length u \<le> 20
     \<and> set u \<subseteq> set (''abcdefghijklmnopqrstuvwxyz'' @ ''0123456789'' @ ''_.-'')"
proof -
  have "list_all usernameChar u \<longleftrightarrow>
      set u \<subseteq> set (''abcdefghijklmnopqrstuvwxyz'' @ ''0123456789'' @ ''_.-'')"
    unfolding list_all_iff usernameChar_iff by blast
  then show ?thesis
    by (simp only: isValidUsername_def)
qed

lemma generateEmailAddress_email:
  "info_email (snd (generateEmailAddress e st opts)) =
     chooseUsername e opts @ ''@'' @ info_domain (snd (generateEmailAddress e st opts))"
  by (simp add: generateEmailAddress_def Let_def)

lemma generateEmailAddress_domain:
  "info_domain (snd (generateEmailAddress e st opts)) = chooseDomain e st opts"
  by (simp add: generateEmailAddress_def Let_def)

lemma generateEmailAddress_mailbox:
  "map_of (emails (fst (generateEmailAddress e st opts)))
     (info_email (snd (generateEmailAddress e st opts))) \<noteq> None"
  by (simp add: generateEmailAddress_def Let_def update_conv' split: option.splits)

lemma receiveEmail_mailbox: "map_of (emails (fst (receiveEmail cfg e st a d))) a \<noteq> None"
  by (simp add: receiveEmail_def Let_def emails_saveToFile update_conv' split: option.splits)

lemma receiveEmail_others:
  "a' \<noteq> a \<Longrightarrow> map_of (emails (fst (receiveEmail cfg e st a d))) a' = map_of (emails st) a'"
  by (simp add: receiveEmail_def Let_def emails_saveToFile update_conv' split: option.splits)

text \<open>
  Claim C9. A preferred username that matches the pattern (3 to 20 characters,
  each a lower-case letter, a digit, underscore, dot or hyphen) is the local
  part of the address, verbatim. With no username, or one that does not match,
  the local part is the random username, which has no upper-case letter and,
  for indices inside the two word lists, is adjective, noun and number joined by
  underscores. \<open>generateEmailAddress\<close> has no failing branch: it is a total
  function of its inputs.
\<close>

theorem generateEmailAddress_username:
  "(isValidUsername u \<longleftrightarrow>
      3 \<le> length u \<and> length u \<le> 20
      \<and> set u \<subseteq> set (''abcdefghijklmnopqrstuvwxyz'' @ ''0123456789'' @ ''_.-''))
   \<and> (opt_username opts = Some u \<and> isValidUsername u \<longrightarrow>
        info_email (snd (generateEmailAddress e st opts)) =
          u @ ''@'' @ info_domain (snd (generateEmailAddress e st opts)))
   \<and> ((case opt_username opts of None \<Rightarrow> True | Some v \<Rightarrow> \<not> isValidUsername v) \<longrightarrow>
        info_email (snd (generateEmailAddress e st opts)) =
          generateRandomUsername e @ ''@'' @ info_domain (snd (generateEmailAddress e st opts)))
   \<and> lowerString (generateRandomUsername e)
   \<and> (rand_adj e < length adjectives \<and> rand_noun e < length nouns \<longrightarrow>
        generateRandomUsername e =
          adjectives ! rand_adj e @ ''_'' @ nouns ! rand_noun e @ ''_'' @ natToString (rand_num e))"
proof (intro conjI impI)
  show "isValidUsername u \<longleftrightarrow>
      3 \<le> length u \<and> length u \<le> 20
      \<and> set u \<subseteq> set (''abcdefghijklmnopqrstuvwxyz'' @ ''0123456789'' @ ''_.-'')"
    by (rule isValidUsername_iff)
next
  assume "opt_username opts = Some u \<and> isValidUsername u"
  then have "chooseUsername e opts = u"
    by (auto simp: chooseUsername_def isValidUsername_def)
  then show "info_email (snd (generateEmailAddress e st opts)) =
          u @ ''@'' @ info_domain (snd (generateEmailAddress e st opts))"
    using generateEmailAddress_email [of e st opts] by simp
next
  assume "case opt_username opts of None \<Rightarrow> True | Some v \<Rightarrow> \<not> isValidUsername v"
  then have "chooseUsername e opts = generateRandomUsername e"
    by (simp add: chooseUsername_def split: option.splits)
  then show "info_email (snd (generateEmailAddress e st opts)) =
          generateRandomUsername e @ ''@'' @ info_domain (snd (generateEmailAddress e st opts))"
    using generateEmailAddress_email [of e st opts] by simp
next
  show "lowerString (generateRandomUsername e)"
    by (simp add: generateRandomUsername_def lowerString_toLowerCase)
next
  assume "rand_adj e < length adjectives \<and> rand_noun e < length nouns"
  then show "generateRandomUsername e =
          adjectives ! rand_adj e @ ''_'' @ nouns ! rand_noun e @ ''_'' @ natToString (rand_num e)"
    by (simp add: generateRandomUsername_shape)
qed

lemma chooseDomain_newManager: "chooseDomain (env_at t r) (newManager t' f) (opts_custom u) = ''localhost''"
  by (simp add: chooseDomain_def opts_custom_def newManager_def env_at_def templateIndex_def)

theorem generateEmailAddress_username_witness:
  "isValidUsername ''bob.s-1''
   \<and> info_email (snd (generateEmailAddress (env_at 5 []) (newManager 0 None) (opts_custom ''bob.s-1'')))
       = ''bob.s-1@localhost''
   \<and> \<not> isValidUsername ''Bob!''
   \<and> rand_adj (env_at 5 []) < length adjectives \<and> rand_noun (env_at 5 []) < length nouns
   \<and> info_email (snd (generateEmailAddress (env_at 5 []) (newManager 0 None) (opts_custom ''Bob!'')))
       = ''clever_wolf_7@localhost''"
proof -
  have v: "isValidUsername ''bob.s-1''"
    by (simp add: isValidUsername_def usernameChar_def)
  have n: "\<not> isValidUsername ''Bob!''"
    by (simp add: isValidUsername_def usernameChar_def)
  have r: "rand_adj (env_at 5 []) < length adjectives \<and> rand_noun (env_at 5 []) < length nouns"
    by (simp add: env_at_def adjectives_def nouns_def)
  have d: "info_domain (snd (generateEmailAddress (env_at 5 []) (newManager 0 None) (opts_custom w))) =
      ''localhost''" for w
    by (simp add: generateEmailAddress_domain chooseDomain_newManager)
  note valid = generateEmailAddress_username [of "''bob.s-1''" "opts_custom ''bob.s-1''" "env_at 5 []"
      "newManager 0 None"]
  note invalid = generateEmailAddress_username [of "''Bob!''" "opts_custom ''Bob!''" "env_at 5 []"
      "newManager 0 None"]
  from valid v have a: "info_email (snd (generateEmailAddress (env_at 5 []) (newManager 0 None)
      (opts_custom ''bob.s-1''))) = ''bob.s-1@localhost''"
    by (simp add: opts_custom_def [of "''bob.s-1''", symmetric] d) (simp add: opts_custom_def)
  have name: "adjectives ! rand_adj (env_at 5 []) @ ''_'' @ nouns ! rand_noun (env_at 5 []) @ ''_''
      @ natToString (rand_num (env_at 5 [])) = ''clever_wolf_7''"
    by (simp add: env_at_def adjectives_def nouns_def natToString.simps)
  from invalid n have b1: "info_email (snd (generateEmailAddress (env_at 5 []) (newManager 0 None)
      (opts_custom ''Bob!''))) =
      generateRandomUsername (env_at 5 []) @ ''@'' @
        info_domain (snd (generateEmailAddress (env_at 5 []) (newManager 0 None) (opts_custom ''Bob!'')))"
    by (simp add: opts_custom_def)
  from invalid r have b2: "generateRandomUsername (env_at 5 []) =
      adjectives ! rand_adj (env_at 5 []) @ ''_'' @ nouns ! rand_noun (env_at 5 []) @ ''_''
      @ natToString (rand_num (env_at 5 []))"
    by blast
  have b: "info_email (snd (generateEmailAddress (env_at 5 []) (newManager 0 None)
      (opts_custom ''Bob!''))) = ''clever_wolf_7@localhost''"
    by (simp only: b1 b2 name d) simp
  from v n r a b show ?thesis by simp
qed

subsection \<open>Case of addresses\<close>

text \<open>
  Claim C6, as the code has it. The store does not normalise the case of an
  address. The local part that \<open>generateEmailAddress\<close> chooses has no upper-case
  letter; the domain is the chosen one as it stands, and the mailbox is kept
  under the address so composed. \<open>receiveEmail\<close> keeps the mailbox under the
  recipient address exactly as given and touches no other key, so a deposit to
  an address that is not in lower case leaves the mailbox of its lower-case form
  as it was.
\<close>

theorem addresses_kept_verbatim:
  "lowerString (chooseUsername e opts)
   \<and> info_email (snd (generateEmailAddress e st opts)) =
       chooseUsername e opts @ ''@'' @ chooseDomain e st opts
   \<and> map_of (emails (fst (generateEmailAddress e st opts)))
        (info_email (snd (generateEmailAddress e st opts))) \<noteq> None
   \<and> map_of (emails (fst (receiveEmail cfg e st a d))) a \<noteq> None
   \<and> (\<forall>a'. a' \<noteq> a \<longrightarrow>
          map_of (emails (fst (receiveEmail cfg e st a d))) a' = map_of (emails st) a')
   \<and> (toLowerCase a \<noteq> a \<longrightarrow>
          getEmailsForAddress (fst (receiveEmail cfg e st a d)) (toLowerCase a) =
            getEmailsForAddress st (toLowerCase a))"
proof -
  have "getEmailsForAddress (fst (receiveEmail cfg e st a d)) (toLowerCase a) =
            getEmailsForAddress st (toLowerCase a)"
    if "toLowerCase a \<noteq> a"
    using that receiveEmail_others [of "toLowerCase a" a cfg e st d]
    by (simp add: getEmailsForAddress_def)
  moreover have "info_email (snd (generateEmailAddress e st opts)) =
       chooseUsername e opts @ ''@'' @ chooseDomain e st opts"
    by (simp only: generateEmailAddress_email [of e st opts] generateEmailAddress_domain)
  moreover have "\<forall>a'. a' \<noteq> a \<longrightarrow>
          map_of (emails (fst (receiveEmail cfg e st a d))) a' = map_of (emails st) a'"
    by (simp add: receiveEmail_others)
  moreover note lowerString_chooseUsername [of e opts] generateEmailAddress_mailbox [of e st opts]
    receiveEmail_mailbox [of cfg e st a d]
  ultimately show ?thesis by blast
qed

theorem addresses_kept_verbatim_witness:
  "toLowerCase ''Bob@localhost'' \<noteq> ''Bob@localhost''
   \<and> getEmailsForAddress
        (fst (receiveEmail cfg_default (env_at 6 ''zz9'') st_one ''Bob@localhost'' data_hello))
        (toLowerCase ''Bob@localhost'') = getEmailsForAddress st_one ''bob@localhost''
   \<and> map fst (emails (fst (receiveEmail cfg_default (env_at 6 ''zz9'') st_one ''Bob@localhost'' data_hello)))
       = [''bob@localhost'', ''Bob@localhost'']"
proof -
  have l: "toLowerCase ''Bob@localhost'' = ''bob@localhost''"
    by code_simp
  then have n: "toLowerCase ''Bob@localhost'' \<noteq> ''Bob@localhost''"
    by simp
  have k: "map fst (emails (fst (receiveEmail cfg_default (env_at 6 ''zz9'') st_one ''Bob@localhost'' data_hello)))
       = [''bob@localhost'', ''Bob@localhost'']"
    by (simp add: receiveEmail_def Let_def emails_saveToFile st_one_emails)
  from addresses_kept_verbatim [of "env_at 6 ''zz9''" "opts_custom ''bob''" st_one cfg_default
      "''Bob@localhost''" data_hello] n
  have "getEmailsForAddress
        (fst (receiveEmail cfg_default (env_at 6 ''zz9'') st_one ''Bob@localhost'' data_hello))
        (toLowerCase ''Bob@localhost'') = getEmailsForAddress st_one (toLowerCase ''Bob@localhost'')"
    by blast
  with l n k show ?thesis by simp
qed

theorem lowercase_mailbox_counterexample:
  "toLowerCase ''Bob@localhost'' = ''bob@localhost''
   \<and> getEmailsForAddress
        (fst (receiveEmail cfg_default (env_at 5 ''k3x'') (newManager 0 None) ''Bob@localhost'' data_hello))
        ''Bob@localhost'' \<noteq> []
   \<and> getEmailsForAddress
        (fst (receiveEmail cfg_default (env_at 5 ''k3x'') (newManager 0 None) ''Bob@localhost'' data_hello))
        ''bob@localhost'' = []
   \<and> map fst (emails
        (fst (receiveEmail cfg_default (env_at 5 ''k3x'') (newManager 0 None) ''Bob@localhost'' data_hello)))
       = [''Bob@localhost'']"
proof -
  have "toLowerCase ''Bob@localhost'' = ''bob@localhost''"
    by code_simp
  then show ?thesis
    by (simp add: getEmailsForAddress_def receiveEmail_def Let_def
        emails_saveToFile newManager_def slice0_def cfg_default_def)
qed

end
